theory Spec2Isabelle
  imports
    Complex_Main
    "HOL-Library.Char_ord"
    "HOL-Library.List_Lexorder"
    "HOL-Library.Log_Nat"
begin

section \<open>Python string primitives used by the chart formatter\<close>

text \<open>
  The formatter of \<^verbatim>\<open>db/supabase_db.py\<close> works on Python \<^verbatim>\<open>str\<close> values. A string is
  modelled as a list of characters whose code points lie below 256; on that range the
  definitions below are Python's \<^verbatim>\<open>str.split(sep)\<close> for a one-character separator,
  \<^verbatim>\<open>str.isspace\<close>, \<^verbatim>\<open>str.strip()\<close> and \<^verbatim>\<open>str.lower()\<close>. The order on strings
  (\<^verbatim>\<open>sorted\<close>) is the lexicographic order on code points.
\<close>

fun split_on :: "char \<Rightarrow> string \<Rightarrow> string list" where
  "split_on sep [] = [[]]"
| "split_on sep (c # cs) =
     (if c = sep then [] # split_on sep cs
      else (c # hd (split_on sep cs)) # tl (split_on sep cs))"

definition isspace :: "char \<Rightarrow> bool" where
  "isspace c = (of_char c \<in> {9, 10, 11, 12, 13, 28, 29, 30, 31, 32, 133, 160 :: nat})"

definition strip :: "string \<Rightarrow> string" where
  "strip s = rev (dropWhile isspace (rev (dropWhile isspace s)))"

definition lower_char :: "char \<Rightarrow> char" where
  "lower_char c =
     (let n = of_char c :: nat in
      if (65 \<le> n \<and> n \<le> 90) \<or> (192 \<le> n \<and> n \<le> 222 \<and> n \<noteq> 215)
      then char_of (n + 32) else c)"

definition lower :: "string \<Rightarrow> string" where
  "lower s = map lower_char s"

text \<open>\<^verbatim>\<open>sep.join(parts)\<close>, the inverse of splitting.\<close>

fun join_with :: "char \<Rightarrow> string list \<Rightarrow> string" where
  "join_with sep [] = []"
| "join_with sep [w] = w"
| "join_with sep (w # v # ws) = w @ sep # join_with sep (v # ws)"

section \<open>Data model\<close>

text \<open>
  A sequence record is a dictionary of which the formatter reads the key
  \<^verbatim>\<open>"taxonomy"\<close> only; \<open>None\<close> is the absent key. A row of the table
  \<^verbatim>\<open>analysis_jobs\<close> carries an optional \<^verbatim>\<open>filename\<close> and the sequence list found under
  \<^verbatim>\<open>analysis_result.sequences\<close> (both \<^verbatim>\<open>.get\<close> calls default to the empty
  collection, so an absent key and an empty list are the same list here). The store maps
  a job id to its row; \<^verbatim>\<open>response.data\<close> is empty exactly when the id is not in the
  store.
\<close>

record seq_record =
  taxonomy :: "string option"

record job =
  filename :: "string option"
  sequences :: "seq_record list"

type_synonym store = "string \<rightharpoonup> job"

datatype error =
    ValueError string
  | ZeroDivisionError
  | KeyError string
  | IndexError

section \<open>Taxonomy parser\<close>

text \<open>\<^verbatim>\<open>taxonomy = seq.get("taxonomy", "Unknown")\<close>\<close>

definition raw_lineage :: "seq_record \<Rightarrow> string" where
  "raw_lineage seq = (case taxonomy seq of None \<Rightarrow> ''Unknown'' | Some t \<Rightarrow> t)"

text \<open>\<^verbatim>\<open>parts = [p.strip() for p in taxonomy.split(";")]\<close>\<close>

definition parse_lineage :: "string \<Rightarrow> string list" where
  "parse_lineage t = map strip (split_on CHR '';'' t)"

definition seq_parts :: "seq_record \<Rightarrow> string list" where
  "seq_parts seq = parse_lineage (raw_lineage seq)"

text \<open>\<^verbatim>\<open>taxon = parts[idx] if idx < len(parts) else "Unknown"\<close>\<close>

definition taxon_at :: "nat \<Rightarrow> string list \<Rightarrow> string" where
  "taxon_at idx parts = (if idx < length parts then parts ! idx else ''Unknown'')"

section \<open>Rank-to-index maps\<close>

definition rank_index_composition :: "string \<rightharpoonup> nat" where
  "rank_index_composition =
     map_of [(''domain'', 0), (''phylum'', 1), (''class'', 2), (''order'', 3),
             (''family'', 4), (''genus'', 5), (''species'', 6)]"

text \<open>\<^verbatim>\<open>idx = rank_index.get(rank.lower(), 1)\<close>\<close>

definition composition_idx :: "string \<Rightarrow> nat" where
  "composition_idx rank =
     (case rank_index_composition (lower rank) of None \<Rightarrow> 1 | Some i \<Rightarrow> i)"

definition rank_index_heatmap :: "string \<rightharpoonup> nat" where
  "rank_index_heatmap =
     map_of [(''domain'', 0), (''phylum'', 1), (''class'', 2), (''order'', 3),
             (''family'', 4), (''genus'', 5)]"

text \<open>\<^verbatim>\<open>idx = rank_index.get(rank.lower(), 2)\<close>\<close>

definition heatmap_idx :: "string \<Rightarrow> nat" where
  "heatmap_idx rank =
     (case rank_index_heatmap (lower rank) of None \<Rightarrow> 2 | Some i \<Rightarrow> i)"

section \<open>Binary64 arithmetic\<close>

text \<open>
  Python's \<^verbatim>\<open>float\<close> and numpy's \<^verbatim>\<open>float64\<close> are IEEE binary64 numbers. A finite
  one is modelled by its exact rational value, and each operation by the exact rational
  result rounded to the nearest binary64 number, ties to even (\<open>fl\<close>): 53 significant
  bits, least exponent \<open>-1074\<close>. Every value computed below lies between 0 and 101, so
  overflow does not arise.
\<close>

definition pow2 :: "int \<Rightarrow> rat" where
  "pow2 e = (if 0 \<le> e then 2 ^ nat e else 1 / 2 ^ nat (- e))"

text \<open>The integer \<open>k\<close> with \<open>2\<^sup>k \<le> q < 2\<^sup>k\<^sup>+\<^sup>1\<close>, for positive \<open>q\<close>.\<close>

definition ilog2 :: "rat \<Rightarrow> int" where
  "ilog2 q =
     (let k = bitlen (fst (quotient_of q)) - bitlen (snd (quotient_of q))
      in if pow2 k \<le> q then k else k - 1)"

definition round_half_even :: "rat \<Rightarrow> int" where
  "round_half_even x =
     (let f = \<lfloor>x\<rfloor>; r = x - of_int f
      in if r < 1 / 2 then f
         else if 1 / 2 < r then f + 1
         else if even f then f else f + 1)"

definition fl :: "rat \<Rightarrow> rat" where
  "fl q =
     (if q = 0 then 0
      else let e = max (ilog2 \<bar>q\<bar> - 52) (- 1074); u = pow2 e
           in of_int (round_half_even (q / u)) * u)"

text \<open>\<^verbatim>\<open>count / total\<close> on Python integers: the correctly rounded quotient, or
  \<^verbatim>\<open>ZeroDivisionError\<close>.\<close>

definition py_truediv :: "nat \<Rightarrow> nat \<Rightarrow> error + rat" where
  "py_truediv a b = (if b = 0 then Inl ZeroDivisionError else Inr (fl (of_nat a / of_nat b)))"

text \<open>\<^verbatim>\<open>x * y\<close> and \<^verbatim>\<open>x - y\<close> on floats.\<close>

definition fmul :: "rat \<Rightarrow> rat \<Rightarrow> rat" where
  "fmul x y = fl (x * y)"

definition fsub :: "rat \<Rightarrow> rat \<Rightarrow> rat" where
  "fsub x y = fl (x - y)"

text \<open>\<^verbatim>\<open>round(x, 2)\<close>: the exact value of \<open>x\<close> is rounded to two decimals, ties to
  even, and the decimal result is converted back to the nearest float.\<close>

definition py_round2 :: "rat \<Rightarrow> rat" where
  "py_round2 x = fl (of_int (round_half_even (x * 100)) / 100)"

section \<open>Rank aggregator: taxonomic composition\<close>

text \<open>
  A \<^verbatim>\<open>Counter\<close> is a dictionary, which keeps its keys in the order of their first
  insertion: an association list. \<open>counter_incr\<close> is \<^verbatim>\<open>counts[k] += 1\<close>.
\<close>

type_synonym counter = "(string \<times> nat) list"

fun counter_incr :: "'k \<Rightarrow> ('k \<times> nat) list \<Rightarrow> ('k \<times> nat) list" where
  "counter_incr k [] = [(k, 1)]"
| "counter_incr k ((k', n) # kvs) =
     (if k' = k then (k', n + 1) # kvs else (k', n) # counter_incr k kvs)"

text \<open>\<^verbatim>\<open>counts.get(k, 0)\<close>\<close>

definition counter_get :: "('k \<times> nat) list \<Rightarrow> 'k \<Rightarrow> nat" where
  "counter_get counts k = (case map_of counts k of None \<Rightarrow> 0 | Some n \<Rightarrow> n)"

text \<open>The counting loop over the sequences, at positional index \<open>idx\<close>.\<close>

definition count_rank :: "nat \<Rightarrow> seq_record list \<Rightarrow> counter" where
  "count_rank idx seqs =
     foldl (\<lambda>rank_counts seq. counter_incr (taxon_at idx (seq_parts seq)) rank_counts) [] seqs"

text \<open>\<^verbatim>\<open>Counter.most_common()\<close> is
  \<^verbatim>\<open>sorted(self.items(), key=itemgetter(1), reverse=True)\<close>: a stable sort by descending
  count.\<close>

definition most_common :: "counter \<Rightarrow> (string \<times> nat) list" where
  "most_common counts = sort_key (\<lambda>kv. - int (snd kv)) counts"

text \<open>\<^verbatim>\<open>_generate_colors\<close>: the palette literal is not empty, so the list being doubled
  is kept as its head and its tail.\<close>

definition palette :: "string list" where
  "palette =
     [''#22D3EE'', ''#10B981'', ''#F59E0B'', ''#EC4899'', ''#A78BFA'',
      ''#3B82F6'', ''#EF4444'', ''#8B5CF6'', ''#14B8A6'', ''#F97316'',
      ''#06B6D4'', ''#84CC16'', ''#F43F5E'', ''#6366F1'', ''#64748B'']"

function extend_colors :: "nat \<Rightarrow> string \<Rightarrow> string list \<Rightarrow> string list" where
  "extend_colors count c cs =
     (if length (c # cs) < count then extend_colors count c (cs @ c # cs) else c # cs)"
  by pat_completeness auto
termination
  by (relation "measure (\<lambda>(count, c, cs). count - length (c # cs))") auto

declare extend_colors.simps [simp del]

definition generate_colors :: "nat \<Rightarrow> string list" where
  "generate_colors count = take count (extend_colors count (hd palette) (tl palette))"

record comp_entry =
  entry_name :: string
  entry_value :: nat
  entry_percentage :: rat
  entry_color :: string

text \<open>The loop \<^verbatim>\<open>for i, (taxon, count) in enumerate(rank_counts.most_common())\<close>, from
  position \<open>i\<close> on (\<open>tot\<close> is the source's \<^verbatim>\<open>total\<close>).\<close>

fun build_composition ::
  "nat \<Rightarrow> string list \<Rightarrow> nat \<Rightarrow> (string \<times> nat) list \<Rightarrow> error + comp_entry list" where
  "build_composition tot colors i [] = Inr []"
| "build_composition tot colors i ((taxon, count) # rest) =
     (case py_truediv count tot of
        Inl e \<Rightarrow> Inl e
      | Inr q \<Rightarrow>
          if i < length colors then
            (case build_composition tot colors (i + 1) rest of
               Inl e \<Rightarrow> Inl e
             | Inr entries \<Rightarrow>
                 Inr (\<lparr>entry_name = taxon, entry_value = count,
                       entry_percentage = py_round2 (fmul q 100),
                       entry_color = colors ! i\<rparr> # entries))
          else Inl IndexError)"

definition composition_of :: "seq_record list \<Rightarrow> string \<Rightarrow> error + comp_entry list" where
  "composition_of seqs rank =
     (let rank_counts = count_rank (composition_idx rank) seqs;
          tot = sum_list (map snd rank_counts);
          colors = generate_colors (length rank_counts)
      in build_composition tot colors 0 (most_common rank_counts))"

definition not_found :: "string \<Rightarrow> error" where
  "not_found job_id = ValueError (''No analysis found for job_id: '' @ job_id)"

definition get_taxonomic_composition ::
  "store \<Rightarrow> string \<Rightarrow> string \<Rightarrow> error + comp_entry list" where
  "get_taxonomic_composition db job_id rank =
     (case db job_id of
        None \<Rightarrow> Inl (not_found job_id)
      | Some row \<Rightarrow> composition_of (sequences row) rank)"

section \<open>Hierarchy builder\<close>

text \<open>
  The tree under construction: every node is a dictionary with the keys
  \<^verbatim>\<open>name\<close>, \<^verbatim>\<open>value\<close> and \<^verbatim>\<open>children\<close>, the last one a dictionary from labels to
  nodes, in insertion order.
\<close>

datatype tree_node =
  TreeNode (node_name: string) (node_value: nat) (node_children: "(string \<times> tree_node) list")

text \<open>\<^verbatim>\<open>d[k] = v\<close> on a dictionary: an existing key keeps its place, a new one goes
  last.\<close>

fun dict_set :: "'k \<Rightarrow> 'v \<Rightarrow> ('k \<times> 'v) list \<Rightarrow> ('k \<times> 'v) list" where
  "dict_set k v [] = [(k, v)]"
| "dict_set k v ((k', v') # kvs) =
     (if k' = k then (k, v) # kvs else (k', v') # dict_set k v kvs)"

text \<open>
  The loop \<^verbatim>\<open>for i, part in enumerate(parts)\<close> on the dictionary \<^verbatim>\<open>current\<close>. The source
  creates the node when the label is new, adds one to its value and, unless the part is
  the last one, goes on inside the node's children; the model returns the updated
  dictionary.
\<close>

fun add_parts :: "string list \<Rightarrow> (string \<times> tree_node) list \<Rightarrow> (string \<times> tree_node) list" where
  "add_parts [] current = current"
| "add_parts (part # rest) current =
     (let node = (case map_of current part of
                    None \<Rightarrow> TreeNode part 0 []
                  | Some n \<Rightarrow> n);
          children = (if rest \<noteq> [] then add_parts rest (node_children node)
                      else node_children node)
      in dict_set part (TreeNode (node_name node) (node_value node + 1) children) current)"

definition build_tree :: "seq_record list \<Rightarrow> (string \<times> tree_node) list" where
  "build_tree seqs = foldl (\<lambda>children seq. add_parts (seq_parts seq) children) [] seqs"

text \<open>The serialised node: \<^verbatim>\<open>children\<close> is a list, or \<^verbatim>\<open>None\<close> for a leaf.\<close>

datatype out_node =
  OutNode (out_name: string) (out_value: nat) (out_children: "out_node list option")

fun dict_to_list :: "tree_node \<Rightarrow> out_node" where
  "dict_to_list (TreeNode nm v ch) =
     (let children = (if ch \<noteq> [] then map (\<lambda>kv. dict_to_list (snd kv)) ch else [])
      in OutNode nm v (if children \<noteq> [] then Some children else None))"

record hierarchy =
  hier_name :: string
  hier_children :: "out_node list"

definition hierarchy_of :: "seq_record list \<Rightarrow> hierarchy" where
  "hierarchy_of seqs =
     \<lparr>hier_name = ''Life'',
      hier_children = map (\<lambda>kv. dict_to_list (snd kv)) (build_tree seqs)\<rparr>"

definition get_hierarchical_data :: "store \<Rightarrow> string \<Rightarrow> error + hierarchy" where
  "get_hierarchical_data db job_id =
     (case db job_id of
        None \<Rightarrow> Inl (not_found job_id)
      | Some row \<Rightarrow> Inr (hierarchy_of (sequences row)))"

section \<open>Flow (Sankey) builder\<close>

record sankey_state =
  nodes_set :: "string set"
  flows :: "((string \<times> string) \<times> nat) list"

definition ranks :: "string list" where
  "ranks = [''Start'', ''Domain'', ''Phylum'', ''Class'', ''Order'']"

text \<open>The body of \<^verbatim>\<open>for i in range(max_levels - 1)\<close>.\<close>

definition sankey_edge :: "string list \<Rightarrow> sankey_state \<Rightarrow> nat \<Rightarrow> sankey_state" where
  "sankey_edge parts st i =
     (let source = (if i < length parts then parts ! i else ''Unknown '' @ ranks ! i);
          target = (if i + 1 < length parts then parts ! (i + 1)
                    else ''Unknown '' @ ranks ! (i + 1))
      in \<lparr>nodes_set = insert target (insert source (nodes_set st)),
          flows = counter_incr (source, target) (flows st)\<rparr>)"

text \<open>The body of \<^verbatim>\<open>for seq in sequences\<close>.\<close>

definition sankey_seq :: "sankey_state \<Rightarrow> seq_record \<Rightarrow> sankey_state" where
  "sankey_seq st seq =
     (let parts = ''Start'' # seq_parts seq;
          max_levels = min 5 (length parts)
      in foldl (sankey_edge parts) st [0..<max_levels - 1])"

definition sankey_collect :: "seq_record list \<Rightarrow> sankey_state" where
  "sankey_collect seqs = foldl sankey_seq \<lparr>nodes_set = {''Start''}, flows = []\<rparr> seqs"

record sankey_node =
  node_id :: nat
  node_label :: string

record sankey_link =
  link_source :: nat
  link_target :: nat
  link_value :: nat

record sankey_data =
  nodes :: "sankey_node list"
  links :: "sankey_link list"

text \<open>\<^verbatim>\<open>{name: idx for idx, name in enumerate(nodes_list)}\<close>\<close>

definition node_indices :: "string list \<Rightarrow> (string \<rightharpoonup> nat)" where
  "node_indices nodes_list = map_of (zip nodes_list [0..<length nodes_list])"

text \<open>\<^verbatim>\<open>d[k]\<close> on a dictionary raises \<^verbatim>\<open>KeyError\<close> for a missing key.\<close>

definition dict_item :: "(string \<rightharpoonup> 'v) \<Rightarrow> string \<Rightarrow> error + 'v" where
  "dict_item d k = (case d k of None \<Rightarrow> Inl (KeyError k) | Some v \<Rightarrow> Inr v)"

fun build_links :: "(string \<rightharpoonup> nat) \<Rightarrow> ((string \<times> string) \<times> nat) list \<Rightarrow> error + sankey_link list" where
  "build_links idx [] = Inr []"
| "build_links idx (((source, target), v) # rest) =
     (case dict_item idx source of
        Inl e \<Rightarrow> Inl e
      | Inr s \<Rightarrow>
          (case dict_item idx target of
             Inl e \<Rightarrow> Inl e
           | Inr t \<Rightarrow>
               (case build_links idx rest of
                  Inl e \<Rightarrow> Inl e
                | Inr ls \<Rightarrow> Inr (\<lparr>link_source = s, link_target = t, link_value = v\<rparr> # ls))))"

definition sankey_of :: "seq_record list \<Rightarrow> error + sankey_data" where
  "sankey_of seqs =
     (let st = sankey_collect seqs;
          nodes_list = sorted_list_of_set (nodes_set st)
      in case build_links (node_indices nodes_list) (flows st) of
           Inl e \<Rightarrow> Inl e
         | Inr ls \<Rightarrow>
             Inr \<lparr>nodes = map (\<lambda>(idx, name). \<lparr>node_id = idx, node_label = name\<rparr>)
                            (zip [0..<length nodes_list] nodes_list),
                  links = ls\<rparr>)"

definition get_sankey_data :: "store \<Rightarrow> string \<Rightarrow> error + sankey_data" where
  "get_sankey_data db job_id =
     (case db job_id of
        None \<Rightarrow> Inl (not_found job_id)
      | Some row \<Rightarrow> sankey_of (sequences row))"

section \<open>Heatmap\<close>

record heatmap_state =
  st_samples :: "string list"
  st_taxa :: "string set"
  sample_taxa_counts :: "string \<rightharpoonup> counter"

text \<open>\<^verbatim>\<open>str(job.get("filename", "Unknown"))\<close>\<close>

definition sample_name_of :: "job \<Rightarrow> string" where
  "sample_name_of row = (case filename row of None \<Rightarrow> ''Unknown'' | Some f \<Rightarrow> f)"

text \<open>The body of \<^verbatim>\<open>for job_id in job_ids\<close>; an id without a row is skipped by
  \<^verbatim>\<open>continue\<close>.\<close>

definition heatmap_job :: "store \<Rightarrow> string \<Rightarrow> heatmap_state \<Rightarrow> string \<Rightarrow> heatmap_state" where
  "heatmap_job db rank st job_id =
     (case db job_id of
        None \<Rightarrow> st
      | Some row \<Rightarrow>
          (let sample_name = sample_name_of row;
               taxa_counts = count_rank (heatmap_idx rank) (sequences row)
           in \<lparr>st_samples = st_samples st @ [sample_name],
               st_taxa = st_taxa st \<union> set (map fst taxa_counts),
               sample_taxa_counts = (sample_taxa_counts st)(sample_name \<mapsto> taxa_counts)\<rparr>))"

record heatmap_data =
  heatmap_samples :: "string list"
  heatmap_taxa :: "string list"
  heatmap_matrix :: "nat list list"

text \<open>The loop \<^verbatim>\<open>for sample in heatmap_data["samples"]\<close> that builds the rows.\<close>

fun heatmap_rows :: "(string \<rightharpoonup> counter) \<Rightarrow> string list \<Rightarrow> string list \<Rightarrow> error + nat list list" where
  "heatmap_rows counts taxa [] = Inr []"
| "heatmap_rows counts taxa (sample # rest) =
     (case dict_item counts sample of
        Inl e \<Rightarrow> Inl e
      | Inr c \<Rightarrow>
          (case heatmap_rows counts taxa rest of
             Inl e \<Rightarrow> Inl e
           | Inr rows \<Rightarrow> Inr (map (counter_get c) taxa # rows)))"

definition get_heatmap_data :: "store \<Rightarrow> string list \<Rightarrow> string \<Rightarrow> error + heatmap_data" where
  "get_heatmap_data db job_ids rank =
     (let st = foldl (heatmap_job db rank)
                 \<lparr>st_samples = [], st_taxa = {}, sample_taxa_counts = Map.empty\<rparr> job_ids;
          taxa = sorted_list_of_set (st_taxa st)
      in case heatmap_rows (sample_taxa_counts st) taxa (st_samples st) of
           Inl e \<Rightarrow> Inl e
         | Inr rows \<Rightarrow>
             Inr \<lparr>heatmap_samples = st_samples st, heatmap_taxa = taxa,
                  heatmap_matrix = rows\<rparr>)"

section \<open>Diversity calculator\<close>

record diversity_state =
  sample_names :: "string list"
  abundance_vectors :: "counter list"
  all_taxa :: "string set"

text \<open>The counts of the whole lineage strings of one sample.\<close>

definition count_taxonomy :: "seq_record list \<Rightarrow> counter" where
  "count_taxonomy seqs = foldl (\<lambda>taxa_counts seq. counter_incr (raw_lineage seq) taxa_counts) [] seqs"

definition diversity_job :: "store \<Rightarrow> diversity_state \<Rightarrow> string \<Rightarrow> diversity_state" where
  "diversity_job db st job_id =
     (case db job_id of
        None \<Rightarrow> st
      | Some row \<Rightarrow>
          (let taxa_counts = count_taxonomy (sequences row)
           in \<lparr>sample_names = sample_names st @ [sample_name_of row],
               abundance_vectors = abundance_vectors st @ [taxa_counts],
               all_taxa = all_taxa st \<union> set (map fst taxa_counts)\<rparr>))"

definition diversity_collect :: "store \<Rightarrow> string list \<Rightarrow> diversity_state" where
  "diversity_collect db job_ids =
     foldl (diversity_job db) \<lparr>sample_names = [], abundance_vectors = [], all_taxa = {}\<rparr> job_ids"

definition abundance_matrix :: "diversity_state \<Rightarrow> nat list list" where
  "abundance_matrix st =
     map (\<lambda>counts. map (counter_get counts) (sorted_list_of_set (all_taxa st)))
       (abundance_vectors st)"

text \<open>
  A numpy \<^verbatim>\<open>float64\<close>: a finite binary64 value, or \<^verbatim>\<open>nan\<close>. scipy's
  \<^verbatim>\<open>braycurtis(u, v)\<close> is \<^verbatim>\<open>abs(u - v).sum() / abs(u + v).sum()\<close> on \<^verbatim>\<open>float64\<close>
  arrays; the division \<^verbatim>\<open>0.0 / 0.0\<close> yields \<^verbatim>\<open>nan\<close> (with a warning, not an
  exception). The sums of counts are exact.
\<close>

datatype npfloat = NaN | Fin rat

definition braycurtis :: "nat list \<Rightarrow> nat list \<Rightarrow> npfloat" where
  "braycurtis u v =
     (let l1_diff = sum_list (map (\<lambda>(a, b). \<bar>int a - int b\<bar>) (zip u v));
          l1_sum = sum_list (map (\<lambda>(a, b). \<bar>int a + int b\<bar>) (zip u v))
      in if l1_sum = 0 then NaN else Fin (fl (of_int l1_diff / of_int l1_sum)))"

text \<open>\<^verbatim>\<open>np.zeros((n, n))\<close>, then the double loop that fills the entries off the
  diagonal.\<close>

definition dissimilarity_matrix :: "nat list list \<Rightarrow> nat \<Rightarrow> npfloat list list" where
  "dissimilarity_matrix matrix n_samples =
     map (\<lambda>i. map (\<lambda>j. if i \<noteq> j then braycurtis (matrix ! i) (matrix ! j) else Fin 0)
                 [0..<n_samples])
       [0..<n_samples]"

text \<open>\<^verbatim>\<open>1 - dissimilarity_matrix\<close>, entry by entry.\<close>

definition one_minus :: "npfloat \<Rightarrow> npfloat" where
  "one_minus d = (case d of NaN \<Rightarrow> NaN | Fin x \<Rightarrow> Fin (fsub 1 x))"

definition similarity_matrix :: "npfloat list list \<Rightarrow> npfloat list list" where
  "similarity_matrix d = map (map one_minus) d"

record diversity_data =
  diversity_samples :: "string list"
  diversity_dissimilarity :: "npfloat list list"
  diversity_similarity :: "npfloat list list"
  diversity_pcoa :: "npfloat list list"
  diversity_explained_variance :: "npfloat list"

text \<open>
  The ordination is scikit-learn's \<^verbatim>\<open>PCA(n_components=2)\<close>, which is not part of the
  repository: \<open>pca\<close> stands for \<^verbatim>\<open>fit_transform\<close> together with
  \<^verbatim>\<open>explained_variance_ratio_\<close>, and may raise. The source has no \<^verbatim>\<open>raise\<close> of its own
  in this function, and its handler re-raises what it catches.
\<close>

definition calculate_beta_diversity ::
  "(nat list list \<Rightarrow> error + npfloat list list \<times> npfloat list) \<Rightarrow> store \<Rightarrow> string list
     \<Rightarrow> error + diversity_data" where
  "calculate_beta_diversity pca db job_ids =
     (let st = diversity_collect db job_ids;
          matrix = abundance_matrix st;
          n_samples = length (sample_names st);
          dissimilarity = dissimilarity_matrix matrix n_samples
      in case pca matrix of
           Inl e \<Rightarrow> Inl e
         | Inr (pcoa_coords, explained) \<Rightarrow>
             Inr \<lparr>diversity_samples = sample_names st,
                  diversity_dissimilarity = dissimilarity,
                  diversity_similarity = similarity_matrix dissimilarity,
                  diversity_pcoa = pcoa_coords,
                  diversity_explained_variance = explained\<rparr>)"

text \<open>The entry appended for the pair \<open>kv\<close> at position \<open>i\<close> of the most-common list.\<close>

definition entry_of :: "nat \<Rightarrow> string list \<Rightarrow> nat \<Rightarrow> string \<times> nat \<Rightarrow> comp_entry" where
  "entry_of tot colors i kv =
     \<lparr>entry_name = fst kv, entry_value = snd kv,
      entry_percentage = py_round2 (fmul (fl (of_nat (snd kv) / of_nat tot)) 100),
      entry_color = colors ! i\<rparr>"


section \<open>The flow builder, as the specification words it\<close>

text \<open>One emitted edge: both labels join the node set and the pair's count goes up by
  one.\<close>

definition add_edge :: "sankey_state \<Rightarrow> string \<times> string \<Rightarrow> sankey_state" where
  "add_edge st e =
     \<lparr>nodes_set = insert (snd e) (insert (fst e) (nodes_set st)),
      flows = counter_incr e (flows st)\<rparr>"

text \<open>The edges of one lineage: the pairs of consecutive labels among \<^verbatim>\<open>"Start"\<close>
  followed by the first four levels.\<close>

definition lineage_edges :: "string list \<Rightarrow> (string \<times> string) list" where
  "lineage_edges parts =
     (let window = take 5 (''Start'' # parts) in zip window (tl window))"

definition all_edges :: "seq_record list \<Rightarrow> (string \<times> string) list" where
  "all_edges seqs = concat (map (\<lambda>seq. lineage_edges (seq_parts seq)) seqs)"

text \<open>The sorted-label rank of a label: the number of labels of the set below it.\<close>

definition label_rank :: "string set \<Rightarrow> string \<Rightarrow> nat" where
  "label_rank labels x = card {l \<in> labels. l < x}"

section \<open>The hierarchy invariant\<close>

text \<open>
  For a node, \<open>ls\<close> lists what remains of each lineage that passes through the node
  after the node's own label; an empty remainder is a lineage that ends at the node.
  \<open>below k ls\<close> are the remainders for the child labelled \<open>k\<close>.
\<close>

definition below :: "string \<Rightarrow> string list list \<Rightarrow> string list list" where
  "below k ls = map tl (filter (\<lambda>l. l \<noteq> [] \<and> hd l = k) ls)"

definition children_sum :: "(string \<times> tree_node) list \<Rightarrow> nat" where
  "children_sum ch = sum_list (map (\<lambda>kv. node_value (snd kv)) ch)"

text \<open>On the dictionaries of the builder: a node counts the lineages that reach it, which
  is its children's total plus the lineages that end at it; its children have distinct
  keys, each equal to the child's name and each reached by some lineage; every lineage
  that goes on has a child to go to; and the children satisfy the same.\<close>

fun tree_ok :: "string list list \<Rightarrow> tree_node \<Rightarrow> bool" where
  "tree_ok ls (TreeNode nm v ch) =
     (v = length ls
      \<and> v = children_sum ch + count_list ls []
      \<and> distinct (map fst ch)
      \<and> (\<forall>l\<in>set ls. l \<noteq> [] \<longrightarrow> hd l \<in> fst ` set ch)
      \<and> (\<forall>kc\<in>set ch. node_name (snd kc) = fst kc \<and> below (fst kc) ls \<noteq> []
                        \<and> tree_ok (below (fst kc) ls) (snd kc)))"

definition forest_ok :: "string list list \<Rightarrow> (string \<times> tree_node) list \<Rightarrow> bool" where
  "forest_ok ls ch =
     (distinct (map fst ch)
      \<and> (\<forall>l\<in>set ls. l \<noteq> [] \<longrightarrow> hd l \<in> fst ` set ch)
      \<and> (\<forall>kc\<in>set ch. node_name (snd kc) = fst kc \<and> below (fst kc) ls \<noteq> []
                        \<and> tree_ok (below (fst kc) ls) (snd kc)))"

text \<open>On the serialised nodes: the sum of the children's counts (0 for a leaf), and the
  same invariant. A node is a leaf exactly when every lineage that reaches it ends
  there.\<close>

definition out_children_sum :: "out_node list option \<Rightarrow> nat" where
  "out_children_sum chs = (case chs of None \<Rightarrow> 0 | Some cs \<Rightarrow> sum_list (map out_value cs))"

fun out_ok :: "string list list \<Rightarrow> out_node \<Rightarrow> bool" where
  "out_ok ls (OutNode nm v chs) =
     (v = length ls
      \<and> v = out_children_sum chs + count_list ls []
      \<and> (case chs of
            None \<Rightarrow> list_all (\<lambda>l. l = []) ls
          | Some cs \<Rightarrow>
              cs \<noteq> [] \<and> distinct (map out_name cs)
              \<and> list_all (\<lambda>l. l = [] \<or> hd l \<in> out_name ` set cs) ls
              \<and> list_all (\<lambda>c. below (out_name c) ls \<noteq> []
                               \<and> out_ok (below (out_name c) ls) c) cs))"

text \<open>All the nodes of a serialised subtree, and of the whole hierarchy.\<close>

fun out_nodes :: "out_node \<Rightarrow> out_node list" where
  "out_nodes (OutNode nm v chs) =
     OutNode nm v chs # (case chs of None \<Rightarrow> [] | Some cs \<Rightarrow> concat (map out_nodes cs))"

definition all_nodes :: "hierarchy \<Rightarrow> out_node list" where
  "all_nodes h = concat (map out_nodes (hier_children h))"

section \<open>Properties of the string primitives\<close>

lemma split_on_not_Nil: "split_on sep s \<noteq> []"
  by (induction s) auto

lemma join_with_Cons: "ws \<noteq> [] \<Longrightarrow> join_with sep (w # ws) = w @ sep # join_with sep ws"
  by (cases ws) auto

lemma join_with_Cons_hd:
  "ws \<noteq> [] \<Longrightarrow> join_with sep ((c # hd ws) # tl ws) = c # join_with sep ws"
  by (cases ws; cases "tl ws") auto

lemma join_split_on: "join_with sep (split_on sep s) = s"
  by (induction s) (auto simp: split_on_not_Nil join_with_Cons join_with_Cons_hd)

lemma split_on_no_sep: "w \<in> set (split_on sep s) \<Longrightarrow> sep \<notin> set w"
proof (induction s arbitrary: w)
  case Nil
  then show ?case by simp
next
  case (Cons c cs)
  obtain v vs where vs: "split_on sep cs = v # vs"
    using split_on_not_Nil[of sep cs] by (cases "split_on sep cs") auto
  from Cons show ?case
    by (auto simp: vs split: if_splits)
qed

lemma split_on_segment: "sep \<notin> set w \<Longrightarrow> split_on sep (w @ sep # s) = w # split_on sep s"
  by (induction w) auto

lemma split_on_last: "sep \<notin> set w \<Longrightarrow> split_on sep w = [w]"
  by (induction w) auto

lemma split_on_join:
  "ws \<noteq> [] \<Longrightarrow> \<forall>w\<in>set ws. sep \<notin> set w \<Longrightarrow> split_on sep (join_with sep ws) = ws"
  by (induction sep ws rule: join_with.induct) (auto simp: split_on_segment split_on_last)

lemma strip_decomp:
  "\<exists>a b. s = a @ strip s @ b \<and> list_all isspace a \<and> list_all isspace b"
proof -
  let ?a = "takeWhile isspace s"
  let ?m = "dropWhile isspace s"
  let ?b = "rev (takeWhile isspace (rev ?m))"
  have "?m = strip s @ ?b"
    unfolding strip_def
    by (metis rev_append rev_rev_ident takeWhile_dropWhile_id)
  then have "s = ?a @ strip s @ ?b"
    by (metis takeWhile_dropWhile_id)
  moreover have "list_all isspace ?a"
    by (simp add: list_all_iff) (meson set_takeWhileD)
  moreover have "list_all isspace ?b"
    by (simp add: list_all_iff) (meson set_takeWhileD)
  ultimately show ?thesis by blast
qed

lemma strip_ends:
  "strip s \<noteq> [] \<Longrightarrow> \<not> isspace (hd (strip s)) \<and> \<not> isspace (last (strip s))"
proof -
  assume ne: "strip s \<noteq> []"
  let ?m = "dropWhile isspace s"
  let ?r = "dropWhile isspace (rev ?m)"
  have r: "?r \<noteq> []" using ne by (simp add: strip_def)
  have "\<not> isspace (hd ?r)" using r by (rule hd_dropWhile)
  then have l: "\<not> isspace (last (strip s))"
    using r by (simp add: strip_def last_rev)
  have m: "?m \<noteq> []"
  proof
    assume "?m = []"
    then have "?r = []" by (simp only: rev.simps dropWhile.simps)
    with r show False by simp
  qed
  have hm: "\<not> isspace (hd ?m)" using m by (rule hd_dropWhile)
  have "\<exists>b. ?m = strip s @ b"
    unfolding strip_def
    by (metis rev_append rev_rev_ident takeWhile_dropWhile_id)
  then obtain b where "?m = strip s @ b" by blast
  then have "hd ?m = hd (strip s)" using ne by (metis hd_append2)
  with hm l show ?thesis by simp
qed

section \<open>Properties of counters, colours and the composition loop\<close>

subsection \<open>Counters\<close>

lemma counter_get_incr:
  "counter_get (counter_incr k c) k' = counter_get c k' + (if k' = k then 1 else 0)"
  by (induction k c rule: counter_incr.induct) (auto simp: counter_get_def)

lemma keys_counter_incr: "fst ` set (counter_incr k c) = insert k (fst ` set c)"
  by (induction k c rule: counter_incr.induct) auto

lemma distinct_counter_incr:
  "distinct (map fst c) \<Longrightarrow> distinct (map fst (counter_incr k c))"
  by (induction k c rule: counter_incr.induct) (auto simp: keys_counter_incr)

lemma sum_counter_incr: "sum_list (map snd (counter_incr k c)) = sum_list (map snd c) + 1"
  by (induction k c rule: counter_incr.induct) auto

lemma positive_counter_incr:
  "\<forall>kv\<in>set c. 0 < snd kv \<Longrightarrow> \<forall>kv\<in>set (counter_incr k c). 0 < snd kv"
  by (induction k c rule: counter_incr.induct) auto

text \<open>Counting a list of keys, starting from a counter.\<close>

lemma foldl_counter_get:
  "counter_get (foldl (\<lambda>c x. counter_incr (f x) c) c0 xs) k =
     counter_get c0 k + length (filter (\<lambda>x. f x = k) xs)"
  by (induction xs arbitrary: c0) (auto simp: counter_get_incr)

lemma foldl_counter_distinct:
  "distinct (map fst c0) \<Longrightarrow> distinct (map fst (foldl (\<lambda>c x. counter_incr (f x) c) c0 xs))"
  by (induction xs arbitrary: c0) (auto simp: distinct_counter_incr)

lemma foldl_counter_sum:
  "sum_list (map snd (foldl (\<lambda>c x. counter_incr (f x) c) c0 xs)) = sum_list (map snd c0) + length xs"
  by (induction xs arbitrary: c0) (auto simp: sum_counter_incr)

lemma foldl_counter_positive:
  "\<forall>kv\<in>set c0. 0 < snd kv \<Longrightarrow>
   \<forall>kv\<in>set (foldl (\<lambda>c x. counter_incr (f x) c) c0 xs). 0 < snd kv"
proof (induction xs arbitrary: c0)
  case Nil
  then show ?case by simp
next
  case (Cons x xs)
  from positive_counter_incr[OF Cons.prems] have "\<forall>kv\<in>set (counter_incr (f x) c0). 0 < snd kv" .
  from Cons.IH[OF this] show ?case by simp
qed

lemma foldl_counter_keys:
  "fst ` set (foldl (\<lambda>c x. counter_incr (f x) c) c0 xs) = fst ` set c0 \<union> f ` set xs"
  by (induction xs arbitrary: c0) (auto simp: keys_counter_incr)

lemma counter_get_map_of:
  "distinct (map fst c) \<Longrightarrow> (k, n) \<in> set c \<Longrightarrow> counter_get c k = n"
  by (simp add: counter_get_def)

subsection \<open>Colours\<close>

lemma length_extend_colors: "count \<le> length (extend_colors count c cs)"
proof (induction count c cs rule: extend_colors.induct)
  case (1 count c cs)
  show ?case
  proof (cases "length (c # cs) < count")
    case True
    with 1 show ?thesis by (subst extend_colors.simps) simp
  next
    case False
    then show ?thesis by (subst extend_colors.simps) simp
  qed
qed

lemma length_generate_colors: "length (generate_colors count) = count"
  by (simp add: generate_colors_def length_extend_colors)

subsection \<open>Composition\<close>

lemma build_composition_ok:
  "0 < tot \<Longrightarrow> i + length xs \<le> length colors \<Longrightarrow>
   build_composition tot colors i xs =
     Inr (map (\<lambda>(j, kv). entry_of tot colors j kv) (zip [i..<i + length xs] xs))"
proof (induction xs arbitrary: i)
  case Nil
  show ?case by simp
next
  case (Cons kv xs)
  obtain taxon count where kv: "kv = (taxon, count)" by (cases kv)
  have up: "[i..<i + length (kv # xs)] = i # [Suc i..<Suc i + length xs]"
    by (simp add: upt_rec)
  from Cons.prems have "Suc i + length xs \<le> length colors" by simp
  from Cons.IH[OF Cons.prems(1) this] Cons.prems show ?case
    unfolding up by (simp add: kv py_truediv_def entry_of_def)
qed

lemma composition_of_empty: "composition_of [] rank = Inr []"
  by (simp add: composition_of_def count_rank_def most_common_def)

lemma composition_of_ok:
  "composition_of seqs rank =
     Inr (map (\<lambda>(j, kv). entry_of (length seqs) (generate_colors (length (count_rank (composition_idx rank) seqs))) j kv)
            (zip [0..<length (count_rank (composition_idx rank) seqs)]
                 (most_common (count_rank (composition_idx rank) seqs))))"
proof (cases seqs)
  case Nil
  then show ?thesis by (simp add: composition_of_empty) (simp add: count_rank_def most_common_def)
next
  case (Cons a list)
  let ?c = "count_rank (composition_idx rank) seqs"
  have tot: "sum_list (map snd ?c) = length seqs"
    by (simp add: count_rank_def foldl_counter_sum)
  have pos: "0 < length seqs" using Cons by simp
  have len: "length (most_common ?c) = length ?c" by (simp add: most_common_def)
  show ?thesis
    unfolding composition_of_def Let_def tot
    using build_composition_ok[OF pos, of 0 "most_common ?c" "generate_colors (length ?c)"]
    by (simp add: len length_generate_colors)
qed

section \<open>The parser and the rank lookup\<close>

lemma taxonomy_absent_default: "taxonomy seq = None \<Longrightarrow> raw_lineage seq = ''Unknown''"
  by (simp add: raw_lineage_def)

text \<open>
  Claim C5. For every lineage string \<open>t\<close>: the segments produced by the split, joined
  again with \<open>;\<close>, are \<open>t\<close>, and none of them contains a \<open>;\<close> (the split is on
  \<open>;\<close>); the parsed list has one label per segment, in the same order, and the label
  at position \<open>i\<close> is segment \<open>i\<close> without its leading and trailing whitespace
  (the segment is whitespace, the label, whitespace, and a label that is not empty neither
  starts nor ends with whitespace). \<^verbatim>\<open>"A; B ;C"\<close> parses to \<^verbatim>\<open>["A","B","C"]\<close>. A record
  without a taxonomy field has the raw lineage \<^verbatim>\<open>"Unknown"\<close>.
\<close>

theorem parse_lineage_splits_trims_in_order:
  "join_with CHR '';'' (split_on CHR '';'' t) = t
   \<and> (\<forall>w\<in>set (split_on CHR '';'' t). CHR '';'' \<notin> set w)
   \<and> length (parse_lineage t) = length (split_on CHR '';'' t)
   \<and> (\<forall>i<length (parse_lineage t).
         (\<exists>a b. split_on CHR '';'' t ! i = a @ parse_lineage t ! i @ b
                \<and> list_all isspace a \<and> list_all isspace b)
         \<and> (parse_lineage t ! i \<noteq> [] \<longrightarrow>
              \<not> isspace (hd (parse_lineage t ! i)) \<and> \<not> isspace (last (parse_lineage t ! i))))
   \<and> parse_lineage ''A; B ;C'' = [''A'', ''B'', ''C'']
   \<and> (taxonomy seq = None \<longrightarrow> raw_lineage seq = ''Unknown''
        \<and> seq_parts seq = [''Unknown''])"
proof -
  have a: "join_with CHR '';'' (split_on CHR '';'' t) = t" by (rule join_split_on)
  have b: "\<forall>w\<in>set (split_on CHR '';'' t). CHR '';'' \<notin> set w"
    using split_on_no_sep by blast
  have c: "length (parse_lineage t) = length (split_on CHR '';'' t)"
    by (simp add: parse_lineage_def)
  have d: "\<forall>i<length (parse_lineage t).
         (\<exists>a b. split_on CHR '';'' t ! i = a @ parse_lineage t ! i @ b
                \<and> list_all isspace a \<and> list_all isspace b)
         \<and> (parse_lineage t ! i \<noteq> [] \<longrightarrow>
              \<not> isspace (hd (parse_lineage t ! i)) \<and> \<not> isspace (last (parse_lineage t ! i)))"
    using strip_decomp strip_ends by (simp add: parse_lineage_def)
  have e: "parse_lineage ''A; B ;C'' = [''A'', ''B'', ''C'']"
    by (simp add: parse_lineage_def strip_def isspace_def)
  have f: "taxonomy seq = None \<longrightarrow> raw_lineage seq = ''Unknown'' \<and> seq_parts seq = [''Unknown'']"
    by (simp add: raw_lineage_def seq_parts_def parse_lineage_def strip_def isspace_def)
  from a b c d e f show ?thesis by blast
qed

theorem parse_lineage_splits_trims_in_order_witness:
  "parse_lineage '' x ;;y z  '' = [''x'', '''', ''y z'']
   \<and> split_on CHR '';'' '' x ;;y z  '' = ['' x '', '''', ''y z  '']
   \<and> join_with CHR '';'' (split_on CHR '';'' '' x ;;y z  '') = '' x ;;y z  ''
   \<and> CHR '';'' \<notin> set (split_on CHR '';'' '' x ;;y z  '' ! 2)
   \<and> \<not> isspace (last (parse_lineage '' x ;;y z  '' ! 2))
   \<and> seq_parts \<lparr>taxonomy = None\<rparr> = [''Unknown'']"
proof -
  have v: "parse_lineage '' x ;;y z  '' = [''x'', '''', ''y z'']"
    by (simp add: parse_lineage_def strip_def isspace_def)
  have s: "split_on CHR '';'' '' x ;;y z  '' = ['' x '', '''', ''y z  '']"
    by simp
  have n: "taxonomy \<lparr>taxonomy = None\<rparr> = None" by simp
  from parse_lineage_splits_trims_in_order[of "'' x ;;y z  ''" "\<lparr>taxonomy = None\<rparr>"] v s n
  show ?thesis by (simp add: isspace_def)
qed

lemma heatmap_idx_species: "heatmap_idx ''species'' = 2"
  by (simp add: heatmap_idx_def rank_index_heatmap_def lower_def lower_char_def)

lemma composition_idx_species: "composition_idx ''species'' = 6"
  by (simp add: composition_idx_def rank_index_composition_def lower_def lower_char_def)

lemma composition_idx_phylum: "composition_idx ''phylum'' = 1"
  by (simp add: composition_idx_def rank_index_composition_def lower_def lower_char_def)

lemma heatmap_idx_class: "heatmap_idx ''class'' = 2"
  by (simp add: heatmap_idx_def rank_index_heatmap_def lower_def lower_char_def)

lemma composition_idx_default:
  "lower rank \<notin> dom rank_index_composition \<Longrightarrow> composition_idx rank = 1"
  by (auto simp: composition_idx_def dom_def)

lemma heatmap_idx_default:
  "lower rank \<notin> dom rank_index_heatmap \<Longrightarrow> heatmap_idx rank = 2"
  by (auto simp: heatmap_idx_def dom_def)

lemma composition_by_idx:
  "composition_idx r = composition_idx r' \<Longrightarrow>
   get_taxonomic_composition db job_id r = get_taxonomic_composition db job_id r'"
  by (simp add: get_taxonomic_composition_def composition_of_def split: option.splits)

lemma heatmap_by_idx:
  "heatmap_idx r = heatmap_idx r' \<Longrightarrow> get_heatmap_data db job_ids r = get_heatmap_data db job_ids r'"
proof -
  assume "heatmap_idx r = heatmap_idx r'"
  then have "heatmap_job db r = heatmap_job db r'"
    by (intro ext) (simp add: heatmap_job_def split: option.splits)
  then show ?thesis by (simp add: get_heatmap_data_def)
qed

text \<open>
  Claim C10. A rank whose lower-cased form is not a key of the composition's map gives the
  index 1, and the composition is the one for \<^verbatim>\<open>"phylum"\<close>: no error is raised. A rank
  whose lower-cased form is not a key of the heatmap's map gives the index 2, and the
  heatmap is the one for \<^verbatim>\<open>"class"\<close>. \<^verbatim>\<open>"species"\<close> is such a rank for the heatmap,
  although the composition's map has it, at index 6.
\<close>

theorem unrecognized_rank_falls_back:
  "(lower rank \<notin> dom rank_index_composition \<longrightarrow>
      composition_idx rank = 1
      \<and> get_taxonomic_composition db job_id rank = get_taxonomic_composition db job_id ''phylum'')
   \<and> (lower rank \<notin> dom rank_index_heatmap \<longrightarrow>
      heatmap_idx rank = 2
      \<and> get_heatmap_data db job_ids rank = get_heatmap_data db job_ids ''class'')
   \<and> ''species'' \<notin> dom rank_index_heatmap
   \<and> heatmap_idx ''species'' = 2
   \<and> get_heatmap_data db job_ids ''species'' = get_heatmap_data db job_ids ''class''
   \<and> rank_index_composition ''species'' = Some 6
   \<and> composition_idx ''species'' = 6"
proof -
  have a: "lower rank \<notin> dom rank_index_composition \<longrightarrow>
      composition_idx rank = 1
      \<and> get_taxonomic_composition db job_id rank = get_taxonomic_composition db job_id ''phylum''"
    using composition_idx_default composition_by_idx[of rank "''phylum''"]
    by (simp add: composition_idx_phylum)
  have b: "lower rank \<notin> dom rank_index_heatmap \<longrightarrow>
      heatmap_idx rank = 2
      \<and> get_heatmap_data db job_ids rank = get_heatmap_data db job_ids ''class''"
    using heatmap_idx_default heatmap_by_idx[of rank "''class''"]
    by (simp add: heatmap_idx_class)
  have c: "''species'' \<notin> dom rank_index_heatmap"
    by (simp add: rank_index_heatmap_def dom_def)
  have d: "get_heatmap_data db job_ids ''species'' = get_heatmap_data db job_ids ''class''"
    by (rule heatmap_by_idx) (simp add: heatmap_idx_species heatmap_idx_class)
  have e: "rank_index_composition ''species'' = Some 6"
    by (simp add: rank_index_composition_def)
  from a b c d e heatmap_idx_species composition_idx_species show ?thesis by blast
qed

theorem unrecognized_rank_falls_back_witness:
  "lower ''Kingdom'' \<notin> dom rank_index_composition
   \<and> lower ''Kingdom'' \<notin> dom rank_index_heatmap
   \<and> composition_idx ''Kingdom'' = 1 \<and> heatmap_idx ''Kingdom'' = 2
   \<and> get_taxonomic_composition
        [''j'' \<mapsto> \<lparr>filename = None, sequences = [\<lparr>taxonomy = Some ''A;B;C''\<rparr>]\<rparr>] ''j'' ''Kingdom''
      = get_taxonomic_composition
        [''j'' \<mapsto> \<lparr>filename = None, sequences = [\<lparr>taxonomy = Some ''A;B;C''\<rparr>]\<rparr>] ''j'' ''phylum''
   \<and> get_heatmap_data
        [''j'' \<mapsto> \<lparr>filename = None, sequences = [\<lparr>taxonomy = Some ''A;B;C''\<rparr>]\<rparr>] [''j''] ''Kingdom''
      = get_heatmap_data
        [''j'' \<mapsto> \<lparr>filename = None, sequences = [\<lparr>taxonomy = Some ''A;B;C''\<rparr>]\<rparr>] [''j''] ''class''"
proof -
  have l: "lower ''Kingdom'' = ''kingdom''" by code_simp
  have c: "lower ''Kingdom'' \<notin> dom rank_index_composition"
    unfolding l by (simp add: rank_index_composition_def dom_def)
  have h: "lower ''Kingdom'' \<notin> dom rank_index_heatmap"
    unfolding l by (simp add: rank_index_heatmap_def dom_def)
  from c h
    unrecognized_rank_falls_back[of "''Kingdom''"
      "[''j'' \<mapsto> \<lparr>filename = None, sequences = [\<lparr>taxonomy = Some ''A;B;C''\<rparr>]\<rparr>]" "''j''" "[''j'']"]
  show ?thesis by blast
qed

section \<open>Composition over an empty collection\<close>

lemma composition_of_never_raises: "\<exists>entries. composition_of seqs rank = Inr entries"
  by (simp add: composition_of_ok)

text \<open>
  Claim C7. For a job that exists and has no sequence records, the list the composition
  loop runs over is empty, so the loop body and its division are never executed, and the
  result is the empty list. Moreover, whatever the records are, the composition of an
  existing job never ends in \<^verbatim>\<open>ZeroDivisionError\<close>.
\<close>

theorem empty_collection_no_division:
  "db job_id = Some row \<Longrightarrow>
     (sequences row = [] \<longrightarrow>
        most_common (count_rank (composition_idx rank) (sequences row)) = []
        \<and> get_taxonomic_composition db job_id rank = Inr [])
     \<and> get_taxonomic_composition db job_id rank \<noteq> Inl ZeroDivisionError"
proof -
  assume row: "db job_id = Some row"
  have a: "sequences row = [] \<longrightarrow>
        most_common (count_rank (composition_idx rank) (sequences row)) = []
        \<and> get_taxonomic_composition db job_id rank = Inr []"
    by (simp add: get_taxonomic_composition_def row composition_of_empty
        count_rank_def most_common_def)
  obtain entries where "composition_of (sequences row) rank = Inr entries"
    using composition_of_never_raises by blast
  then have b: "get_taxonomic_composition db job_id rank \<noteq> Inl ZeroDivisionError"
    by (simp add: get_taxonomic_composition_def row)
  from a b show ?thesis by blast
qed

theorem empty_collection_no_division_witness:
  "[''job-1'' \<mapsto> \<lparr>filename = Some ''empty.fasta'', sequences = []\<rparr>] ''job-1''
     = Some \<lparr>filename = Some ''empty.fasta'', sequences = []\<rparr>
   \<and> get_taxonomic_composition
        [''job-1'' \<mapsto> \<lparr>filename = Some ''empty.fasta'', sequences = []\<rparr>] ''job-1'' ''phylum''
      = Inr []"
proof -
  have r: "[''job-1'' \<mapsto> \<lparr>filename = Some ''empty.fasta'', sequences = []\<rparr>] ''job-1''
     = Some \<lparr>filename = Some ''empty.fasta'', sequences = []\<rparr>" by simp
  from empty_collection_no_division[of
      "[''job-1'' \<mapsto> \<lparr>filename = Some ''empty.fasta'', sequences = []\<rparr>]" "''job-1''"
      "\<lparr>filename = Some ''empty.fasta'', sequences = []\<rparr>" "''phylum''"] r
  show ?thesis by simp
qed

section \<open>Missing job ids\<close>

lemma heatmap_job_absent: "db job_id = None \<Longrightarrow> heatmap_job db rank st job_id = st"
  by (simp add: heatmap_job_def)

lemma diversity_job_absent: "db job_id = None \<Longrightarrow> diversity_job db st job_id = st"
  by (simp add: diversity_job_def)

lemma heatmap_skips_absent:
  "db job_id = None \<Longrightarrow>
   get_heatmap_data db (ids1 @ job_id # ids2) rank = get_heatmap_data db (ids1 @ ids2) rank"
  by (simp add: get_heatmap_data_def heatmap_job_absent)

lemma diversity_skips_absent:
  "db job_id = None \<Longrightarrow>
   diversity_collect db (ids1 @ job_id # ids2) = diversity_collect db (ids1 @ ids2)"
  by (simp add: diversity_collect_def diversity_job_absent)

lemma beta_diversity_skips_absent:
  "db job_id = None \<Longrightarrow>
   calculate_beta_diversity pca db (ids1 @ job_id # ids2) =
   calculate_beta_diversity pca db (ids1 @ ids2)"
  by (simp add: calculate_beta_diversity_def diversity_skips_absent)

lemma heatmap_only_absent:
  "db job_id = None \<Longrightarrow>
   get_heatmap_data db [job_id] rank =
     Inr \<lparr>heatmap_samples = [], heatmap_taxa = [], heatmap_matrix = []\<rparr>"
  by (simp add: get_heatmap_data_def heatmap_job_absent)

lemma heatmap_zero_records:
  "db job_id = Some row \<Longrightarrow> sequences row = [] \<Longrightarrow>
   get_heatmap_data db [job_id] rank =
     Inr \<lparr>heatmap_samples = [sample_name_of row], heatmap_taxa = [], heatmap_matrix = [[]]\<rparr>"
  by (simp add: get_heatmap_data_def heatmap_job_def count_rank_def dict_item_def Let_def)

text \<open>
  Claim C3 says that every formatting component raises for a job id that is not in the
  store. The heatmap does not: on the empty store and the single id \<^verbatim>\<open>"missing"\<close> it
  returns the empty structure.
\<close>

theorem heatmap_absent_job_counterexample:
  "Map.empty ''missing'' = (None :: job option)
   \<and> get_heatmap_data Map.empty [''missing''] ''class'' =
       Inr \<lparr>heatmap_samples = [], heatmap_taxa = [], heatmap_matrix = []\<rparr>"
  by (simp add: heatmap_only_absent)

text \<open>
  Claim C3, amended. For every store and every job id that is not in it, composition,
  hierarchy and Sankey raise \<^verbatim>\<open>ValueError\<close> at once, whatever else the store holds. The
  heatmap and the data collection of the diversity calculator skip such an id: the result
  is the one for the remaining ids, and the heatmap for that id alone is the empty
  structure. Separately, for an existing job with zero records, the composition is the
  empty list and the heatmap has the sample, no taxa and one empty row.
\<close>

theorem missing_job_policy:
  "(db absent = None \<longrightarrow>
       get_taxonomic_composition db absent rank
         = Inl (ValueError (''No analysis found for job_id: '' @ absent))
     \<and> get_hierarchical_data db absent
         = Inl (ValueError (''No analysis found for job_id: '' @ absent))
     \<and> get_sankey_data db absent
         = Inl (ValueError (''No analysis found for job_id: '' @ absent))
     \<and> get_heatmap_data db (ids1 @ absent # ids2) rank = get_heatmap_data db (ids1 @ ids2) rank
     \<and> get_heatmap_data db [absent] rank =
         Inr \<lparr>heatmap_samples = [], heatmap_taxa = [], heatmap_matrix = []\<rparr>
     \<and> diversity_collect db (ids1 @ absent # ids2) = diversity_collect db (ids1 @ ids2)
     \<and> calculate_beta_diversity pca db (ids1 @ absent # ids2) =
         calculate_beta_diversity pca db (ids1 @ ids2))
   \<and> (db present = Some row \<and> sequences row = [] \<longrightarrow>
       get_taxonomic_composition db present rank = Inr []
     \<and> get_heatmap_data db [present] rank =
         Inr \<lparr>heatmap_samples = [sample_name_of row], heatmap_taxa = [], heatmap_matrix = [[]]\<rparr>)"
proof (intro conjI impI)
  assume a: "db absent = None"
  show "get_taxonomic_composition db absent rank
          = Inl (ValueError (''No analysis found for job_id: '' @ absent))"
    by (simp add: get_taxonomic_composition_def not_found_def a)
  show "get_hierarchical_data db absent
          = Inl (ValueError (''No analysis found for job_id: '' @ absent))"
    by (simp add: get_hierarchical_data_def not_found_def a)
  show "get_sankey_data db absent
          = Inl (ValueError (''No analysis found for job_id: '' @ absent))"
    by (simp add: get_sankey_data_def not_found_def a)
  show "get_heatmap_data db (ids1 @ absent # ids2) rank = get_heatmap_data db (ids1 @ ids2) rank"
    using a by (rule heatmap_skips_absent)
  show "get_heatmap_data db [absent] rank =
          Inr \<lparr>heatmap_samples = [], heatmap_taxa = [], heatmap_matrix = []\<rparr>"
    using a by (rule heatmap_only_absent)
  show "diversity_collect db (ids1 @ absent # ids2) = diversity_collect db (ids1 @ ids2)"
    using a by (rule diversity_skips_absent)
  show "calculate_beta_diversity pca db (ids1 @ absent # ids2) =
          calculate_beta_diversity pca db (ids1 @ ids2)"
    using a by (rule beta_diversity_skips_absent)
next
  assume p: "db present = Some row \<and> sequences row = []"
  then show "get_taxonomic_composition db present rank = Inr []"
    by (simp add: get_taxonomic_composition_def composition_of_empty)
next
  assume p: "db present = Some row \<and> sequences row = []"
  then show "get_heatmap_data db [present] rank =
          Inr \<lparr>heatmap_samples = [sample_name_of row], heatmap_taxa = [], heatmap_matrix = [[]]\<rparr>"
    by (simp add: heatmap_zero_records)
qed

theorem missing_job_policy_witness:
  "(Map.empty :: store) ''missing'' = None
   \<and> get_taxonomic_composition Map.empty ''missing'' ''phylum''
        = Inl (ValueError ''No analysis found for job_id: missing'')
   \<and> get_hierarchical_data Map.empty ''missing''
        = Inl (ValueError ''No analysis found for job_id: missing'')
   \<and> get_sankey_data Map.empty ''missing''
        = Inl (ValueError ''No analysis found for job_id: missing'')
   \<and> [''j2'' \<mapsto> \<lparr>filename = Some ''b.fasta'', sequences = []\<rparr>] ''j1'' = None
   \<and> get_taxonomic_composition [''j2'' \<mapsto> \<lparr>filename = Some ''b.fasta'', sequences = []\<rparr>]
        ''j1'' ''phylum'' = Inl (ValueError ''No analysis found for job_id: j1'')
   \<and> get_hierarchical_data [''j2'' \<mapsto> \<lparr>filename = Some ''b.fasta'', sequences = []\<rparr>] ''j1''
        = Inl (ValueError ''No analysis found for job_id: j1'')
   \<and> get_sankey_data [''j2'' \<mapsto> \<lparr>filename = Some ''b.fasta'', sequences = []\<rparr>] ''j1''
        = Inl (ValueError ''No analysis found for job_id: j1'')
   \<and> get_heatmap_data [''j2'' \<mapsto> \<lparr>filename = Some ''b.fasta'', sequences = []\<rparr>]
        [''j1'', ''j2''] ''class''
        = Inr \<lparr>heatmap_samples = [''b.fasta''], heatmap_taxa = [], heatmap_matrix = [[]]\<rparr>
   \<and> get_taxonomic_composition [''j2'' \<mapsto> \<lparr>filename = Some ''b.fasta'', sequences = []\<rparr>]
        ''j2'' ''phylum'' = Inr []"
proof -
  let ?row = "\<lparr>filename = Some ''b.fasta'', sequences = []\<rparr>"
  let ?db = "[''j2'' \<mapsto> ?row]"
  have a: "?db ''j1'' = None" by simp
  have p: "?db ''j2'' = Some ?row \<and> sequences ?row = []" by simp
  have m: "(Map.empty :: store) ''missing'' = None" by simp
  from missing_job_policy[of ?db "''j1''" "''phylum''" "[]" "[''j2'']" _ "''j2''" ?row]
    missing_job_policy[of ?db "''j1''" "''class''" "[]" "[''j2'']" _ "''j2''" ?row]
    missing_job_policy[of "Map.empty :: store" "''missing''" "''phylum''"] a p m
  show ?thesis by (simp add: sample_name_of_def)
qed

section \<open>Properties of the flow builder\<close>

lemma parse_lineage_not_Nil: "parse_lineage t \<noteq> []"
  by (simp add: parse_lineage_def split_on_not_Nil)

lemma seq_parts_not_Nil: "seq_parts seq \<noteq> []"
  by (simp add: seq_parts_def parse_lineage_not_Nil)

lemma consecutive_pairs:
  "map (\<lambda>i. (p ! i, p ! (i + 1))) [0..<length p - 1] = zip p (tl p)"
  by (rule nth_equalityI) (auto simp: nth_tl)

lemma sankey_edge_in_range:
  "i + 1 < length p \<Longrightarrow> sankey_edge p st i = add_edge st (p ! i, p ! (i + 1))"
  by (simp add: sankey_edge_def add_edge_def Let_def)

lemma foldl_sankey_edge:
  "n < length p \<Longrightarrow>
   foldl (sankey_edge p) st [0..<n] = foldl add_edge st (map (\<lambda>i. (p ! i, p ! (i + 1))) [0..<n])"
proof (induction n)
  case 0
  show ?case by simp
next
  case (Suc n)
  then show ?case by (simp add: sankey_edge_in_range)
qed

lemma window_pairs:
  "map (\<lambda>i. (p ! i, p ! (i + 1))) [0..<min 5 (length p) - 1] = zip (take 5 p) (tl (take 5 p))"
proof -
  have "map (\<lambda>i. (p ! i, p ! (i + 1))) [0..<min 5 (length p) - 1] =
        map (\<lambda>i. (take 5 p ! i, take 5 p ! (i + 1))) [0..<min 5 (length p) - 1]"
    by (rule map_cong) auto
  also have "\<dots> = zip (take 5 p) (tl (take 5 p))"
    using consecutive_pairs[of "take 5 p"] by (simp add: min.commute)
  finally show ?thesis .
qed

lemma sankey_seq_edges: "sankey_seq st seq = foldl add_edge st (lineage_edges (seq_parts seq))"
proof -
  define p where "p = ''Start'' # seq_parts seq"
  have n: "min 5 (length p) - 1 < length p" by (simp add: p_def)
  have "sankey_seq st seq = foldl (sankey_edge p) st [0..<min 5 (length p) - 1]"
    by (simp add: sankey_seq_def Let_def p_def)
  also have "\<dots> = foldl add_edge st (map (\<lambda>i. (p ! i, p ! (i + 1))) [0..<min 5 (length p) - 1])"
    using n by (rule foldl_sankey_edge)
  also have "\<dots> = foldl add_edge st (zip (take 5 p) (tl (take 5 p)))"
    by (simp only: window_pairs)
  finally show ?thesis by (simp add: lineage_edges_def Let_def p_def)
qed

lemma foldl_sankey_seq:
  "foldl sankey_seq st seqs = foldl add_edge st (all_edges seqs)"
  by (induction seqs arbitrary: st) (auto simp: all_edges_def sankey_seq_edges)

lemma sankey_collect_edges:
  "sankey_collect seqs = foldl add_edge \<lparr>nodes_set = {''Start''}, flows = []\<rparr> (all_edges seqs)"
  by (simp add: sankey_collect_def foldl_sankey_seq)

lemma nodes_set_foldl_add_edge:
  "nodes_set (foldl add_edge st es) = nodes_set st \<union> fst ` set es \<union> snd ` set es"
  by (induction es arbitrary: st) (auto simp: add_edge_def)

lemma flows_foldl_add_edge:
  "flows (foldl add_edge st es) = foldl (\<lambda>c e. counter_incr e c) (flows st) es"
  by (induction es arbitrary: st) (auto simp: add_edge_def)

lemma nodes_set_sankey_collect:
  "nodes_set (sankey_collect seqs) =
     insert ''Start'' (fst ` set (all_edges seqs) \<union> snd ` set (all_edges seqs))"
  by (simp add: sankey_collect_edges nodes_set_foldl_add_edge)

lemma flows_sankey_collect:
  "flows (sankey_collect seqs) = foldl (\<lambda>c e. counter_incr e c) [] (all_edges seqs)"
  by (simp add: sankey_collect_edges flows_foldl_add_edge)

lemma finite_nodes_set: "finite (nodes_set (sankey_collect seqs))"
  by (simp add: nodes_set_sankey_collect)

lemma flows_keys: "fst ` set (flows (sankey_collect seqs)) = set (all_edges seqs)"
  by (simp add: flows_sankey_collect foldl_counter_keys)

lemma flows_endpoints:
  "((s, t), v) \<in> set (flows (sankey_collect seqs)) \<Longrightarrow>
   s \<in> nodes_set (sankey_collect seqs) \<and> t \<in> nodes_set (sankey_collect seqs)"
proof -
  assume "((s, t), v) \<in> set (flows (sankey_collect seqs))"
  then have "(s, t) \<in> fst ` set (flows (sankey_collect seqs))" by force
  then have "(s, t) \<in> set (all_edges seqs)" by (simp only: flows_keys)
  then show ?thesis by (force simp: nodes_set_sankey_collect)
qed

subsection \<open>Node identifiers\<close>

lemma sorted_distinct_below:
  assumes "sorted xs" "distinct xs" "i < length xs"
  shows "{l \<in> set xs. l < xs ! i} = set (take i xs)"
proof (intro equalityI subsetI)
  fix l assume "l \<in> {l \<in> set xs. l < xs ! i}"
  then obtain j where j: "j < length xs" "l = xs ! j" "xs ! j < xs ! i"
    by (auto simp: in_set_conv_nth)
  have "j < i"
  proof (rule ccontr)
    assume "\<not> j < i"
    then have "i \<le> j" by simp
    with assms(1) j(1) have "xs ! i \<le> xs ! j" by (simp add: sorted_nth_mono)
    with j(3) show False by simp
  qed
  with j show "l \<in> set (take i xs)" by (auto simp: in_set_conv_nth)
next
  fix l assume "l \<in> set (take i xs)"
  then obtain j where j: "j < i" "l = xs ! j" using assms(3) by (auto simp: in_set_conv_nth)
  with assms have "xs ! j \<le> xs ! i" by (simp add: sorted_nth_mono)
  moreover have "xs ! j \<noteq> xs ! i" using assms j by (simp add: nth_eq_iff_index_eq)
  ultimately show "l \<in> {l \<in> set xs. l < xs ! i}" using j assms(3) by simp
qed

lemma label_rank_nth:
  assumes "finite L" "i < card L"
  shows "label_rank L (sorted_list_of_set L ! i) = i"
proof -
  let ?xs = "sorted_list_of_set L"
  have s: "sorted ?xs" "distinct ?xs" "set ?xs = L" "length ?xs = card L"
    using assms(1) by simp_all
  have "{l \<in> L. l < ?xs ! i} = set (take i ?xs)"
    using sorted_distinct_below[OF s(1) s(2)] assms(2) s by simp
  moreover have "card (set (take i ?xs)) = i"
    using s assms(2) by (simp add: distinct_card)
  ultimately show ?thesis by (simp add: label_rank_def)
qed

lemma node_indices_rank:
  assumes "finite L" "x \<in> L"
  shows "node_indices (sorted_list_of_set L) x = Some (label_rank L x)"
proof -
  let ?xs = "sorted_list_of_set L"
  have s: "distinct ?xs" "set ?xs = L" "length ?xs = card L"
    using assms(1) by simp_all
  from assms(2) s obtain i where i: "i < length ?xs" "x = ?xs ! i"
    by (metis in_set_conv_nth)
  have "map_of (zip ?xs [0..<length ?xs]) (?xs ! i) = Some ([0..<length ?xs] ! i)"
    using s(1) i(1) by (intro map_of_zip_nth) simp_all
  then have "node_indices ?xs x = Some i"
    using i by (simp add: node_indices_def)
  moreover have "label_rank L x = i"
    using label_rank_nth[OF assms(1)] i s by simp
  ultimately show ?thesis by simp
qed

lemma build_links_ranks:
  assumes "finite L" "\<forall>((s, t), v)\<in>set fs. s \<in> L \<and> t \<in> L"
  shows "build_links (node_indices (sorted_list_of_set L)) fs =
     Inr (map (\<lambda>((s, t), v). \<lparr>link_source = label_rank L s, link_target = label_rank L t,
                               link_value = v\<rparr>) fs)"
  using assms(2)
proof (induction fs)
  case Nil
  show ?case by simp
next
  case (Cons a fs)
  obtain s t v where a: "a = ((s, t), v)" by (cases a) auto
  from Cons.prems a have st: "s \<in> L" "t \<in> L" by auto
  from Cons.prems have "\<forall>((s, t), v)\<in>set fs. s \<in> L \<and> t \<in> L" by simp
  from Cons.IH[OF this] show ?case
    by (simp add: a dict_item_def node_indices_rank[OF assms(1)] st)
qed

lemma enumerate_ranks:
  assumes "finite L"
  shows "map (\<lambda>(idx, name). \<lparr>node_id = idx, node_label = name\<rparr>)
           (zip [0..<length (sorted_list_of_set L)] (sorted_list_of_set L)) =
         map (\<lambda>name. \<lparr>node_id = label_rank L name, node_label = name\<rparr>) (sorted_list_of_set L)"
  using assms by (intro nth_equalityI) (simp_all add: label_rank_nth)

lemma sankey_of_ranks:
  "sankey_of seqs =
     Inr \<lparr>nodes = map (\<lambda>name. \<lparr>node_id = label_rank (nodes_set (sankey_collect seqs)) name,
                               node_label = name\<rparr>)
                    (sorted_list_of_set (nodes_set (sankey_collect seqs))),
          links = map (\<lambda>((s, t), v).
                         \<lparr>link_source = label_rank (nodes_set (sankey_collect seqs)) s,
                          link_target = label_rank (nodes_set (sankey_collect seqs)) t,
                          link_value = v\<rparr>)
                    (flows (sankey_collect seqs))\<rparr>"
proof -
  let ?L = "nodes_set (sankey_collect seqs)"
  have f: "finite ?L" by (rule finite_nodes_set)
  have e: "\<forall>((s, t), v)\<in>set (flows (sankey_collect seqs)). s \<in> ?L \<and> t \<in> ?L"
    using flows_endpoints by blast
  show ?thesis
    unfolding sankey_of_def Let_def
    by (simp only: build_links_ranks[OF f e] enumerate_ranks[OF f] sum.case)
qed

section \<open>Node identifiers and the fixed window of the flow builder\<close>

lemma ranks_enumerate:
  "finite L \<Longrightarrow> map (label_rank L) (sorted_list_of_set L) = [0..<card L]"
  by (intro nth_equalityI) (simp_all add: label_rank_nth)

lemma start_is_node: "''Start'' \<in> nodes_set (sankey_collect seqs)"
  by (simp add: nodes_set_sankey_collect)

lemma sankey_nodes_by_labels:
  "nodes_set (sankey_collect seqs') = nodes_set (sankey_collect seqs) \<Longrightarrow>
   map_sum id nodes (sankey_of seqs') = map_sum id nodes (sankey_of seqs)"
  by (simp add: sankey_of_ranks)

text \<open>
  Claim C1 gives, for the label set \<^verbatim>\<open>["Start","Bacteria","Eukaryota"]\<close>, the identifiers
  0, 1, 2 to \<^verbatim>\<open>"Start"\<close>, \<^verbatim>\<open>"Bacteria"\<close>, \<^verbatim>\<open>"Eukaryota"\<close>. Two records with the
  lineages \<^verbatim>\<open>"Bacteria"\<close> and \<^verbatim>\<open>"Eukaryota"\<close> have that label set, and the builder gives
  \<^verbatim>\<open>"Start"\<close> the identifier 2, \<^verbatim>\<open>"Bacteria"\<close> 0 and \<^verbatim>\<open>"Eukaryota"\<close> 1.
\<close>

theorem sankey_start_id_counterexample:
  "nodes_set (sankey_collect [\<lparr>taxonomy = Some ''Bacteria''\<rparr>, \<lparr>taxonomy = Some ''Eukaryota''\<rparr>])
     = {''Start'', ''Bacteria'', ''Eukaryota''}
   \<and> sankey_of [\<lparr>taxonomy = Some ''Bacteria''\<rparr>, \<lparr>taxonomy = Some ''Eukaryota''\<rparr>] =
       Inr \<lparr>nodes = [\<lparr>node_id = 0, node_label = ''Bacteria''\<rparr>,
                     \<lparr>node_id = 1, node_label = ''Eukaryota''\<rparr>,
                     \<lparr>node_id = 2, node_label = ''Start''\<rparr>],
            links = [\<lparr>link_source = 2, link_target = 0, link_value = 1\<rparr>,
                     \<lparr>link_source = 2, link_target = 1, link_value = 1\<rparr>]\<rparr>
   \<and> node_indices (sorted_list_of_set {''Start'', ''Bacteria'', ''Eukaryota''}) ''Start'' \<noteq> Some 0"
proof -
  have a: "nodes_set (sankey_collect [\<lparr>taxonomy = Some ''Bacteria''\<rparr>, \<lparr>taxonomy = Some ''Eukaryota''\<rparr>])
     = {''Start'', ''Bacteria'', ''Eukaryota''}"
    by (simp add: sankey_collect_def sankey_seq_def sankey_edge_def seq_parts_def raw_lineage_def
        parse_lineage_def strip_def isspace_def Let_def insert_commute)
  have b: "sankey_of [\<lparr>taxonomy = Some ''Bacteria''\<rparr>, \<lparr>taxonomy = Some ''Eukaryota''\<rparr>] =
       Inr \<lparr>nodes = [\<lparr>node_id = 0, node_label = ''Bacteria''\<rparr>,
                     \<lparr>node_id = 1, node_label = ''Eukaryota''\<rparr>,
                     \<lparr>node_id = 2, node_label = ''Start''\<rparr>],
            links = [\<lparr>link_source = 2, link_target = 0, link_value = 1\<rparr>,
                     \<lparr>link_source = 2, link_target = 1, link_value = 1\<rparr>]\<rparr>"
    by code_simp
  have c: "node_indices (sorted_list_of_set {''Start'', ''Bacteria'', ''Eukaryota''}) ''Start'' \<noteq> Some 0"
    by code_simp
  from a b c show ?thesis by blast
qed

text \<open>
  Claim C1, amended. The nodes are the distinct labels (the virtual \<^verbatim>\<open>"Start"\<close> among
  them) in sorted order, numbered from 0: the identifier of a node is the sorted-label
  rank of its name, that is the number of labels below it, and the endpoints of every
  link are the ranks of its two labels. Two sequence sets with the same label set get the
  same nodes. For the label set \<^verbatim>\<open>{"Start","Bacteria","Eukaryota"}\<close> the identifiers of
  \<^verbatim>\<open>"Bacteria"\<close>, \<^verbatim>\<open>"Eukaryota"\<close>, \<^verbatim>\<open>"Start"\<close> are 0, 1, 2.
\<close>

theorem sankey_node_ids_are_sorted_ranks:
  "sankey_of seqs =
     Inr \<lparr>nodes = map (\<lambda>name. \<lparr>node_id = label_rank (nodes_set (sankey_collect seqs)) name,
                               node_label = name\<rparr>)
                    (sorted_list_of_set (nodes_set (sankey_collect seqs))),
          links = map (\<lambda>((s, t), v).
                         \<lparr>link_source = label_rank (nodes_set (sankey_collect seqs)) s,
                          link_target = label_rank (nodes_set (sankey_collect seqs)) t,
                          link_value = v\<rparr>)
                    (flows (sankey_collect seqs))\<rparr>
   \<and> ''Start'' \<in> nodes_set (sankey_collect seqs)
   \<and> sorted (sorted_list_of_set (nodes_set (sankey_collect seqs)))
   \<and> distinct (sorted_list_of_set (nodes_set (sankey_collect seqs)))
   \<and> set (sorted_list_of_set (nodes_set (sankey_collect seqs))) = nodes_set (sankey_collect seqs)
   \<and> map (label_rank (nodes_set (sankey_collect seqs)))
        (sorted_list_of_set (nodes_set (sankey_collect seqs)))
      = [0..<card (nodes_set (sankey_collect seqs))]
   \<and> (nodes_set (sankey_collect seqs') = nodes_set (sankey_collect seqs) \<longrightarrow>
        map_sum id nodes (sankey_of seqs') = map_sum id nodes (sankey_of seqs))
   \<and> label_rank {''Start'', ''Bacteria'', ''Eukaryota''} ''Bacteria'' = 0
   \<and> label_rank {''Start'', ''Bacteria'', ''Eukaryota''} ''Eukaryota'' = 1
   \<and> label_rank {''Start'', ''Bacteria'', ''Eukaryota''} ''Start'' = 2"
proof -
  have f: "finite (nodes_set (sankey_collect seqs))" by (rule finite_nodes_set)
  have s: "sorted (sorted_list_of_set (nodes_set (sankey_collect seqs)))"
    "distinct (sorted_list_of_set (nodes_set (sankey_collect seqs)))"
    "set (sorted_list_of_set (nodes_set (sankey_collect seqs))) = nodes_set (sankey_collect seqs)"
    using f by simp_all
  have r0: "label_rank {''Start'', ''Bacteria'', ''Eukaryota''} ''Bacteria'' = 0" by code_simp
  have r1: "label_rank {''Start'', ''Bacteria'', ''Eukaryota''} ''Eukaryota'' = 1" by code_simp
  have r2: "label_rank {''Start'', ''Bacteria'', ''Eukaryota''} ''Start'' = 2" by code_simp
  from sankey_of_ranks[of seqs] start_is_node[of seqs] s ranks_enumerate[OF f]
    sankey_nodes_by_labels[of seqs' seqs] r0 r1 r2
  show ?thesis by blast
qed

theorem sankey_node_ids_are_sorted_ranks_witness:
  "nodes_set (sankey_collect
      [\<lparr>taxonomy = Some ''Eukaryota''\<rparr>, \<lparr>taxonomy = Some ''Bacteria''\<rparr>, \<lparr>taxonomy = Some ''Bacteria''\<rparr>])
    = nodes_set (sankey_collect [\<lparr>taxonomy = Some ''Bacteria''\<rparr>, \<lparr>taxonomy = Some ''Eukaryota''\<rparr>])
   \<and> map_sum id nodes (sankey_of
      [\<lparr>taxonomy = Some ''Eukaryota''\<rparr>, \<lparr>taxonomy = Some ''Bacteria''\<rparr>, \<lparr>taxonomy = Some ''Bacteria''\<rparr>])
    = map_sum id nodes (sankey_of [\<lparr>taxonomy = Some ''Bacteria''\<rparr>, \<lparr>taxonomy = Some ''Eukaryota''\<rparr>])"
proof -
  have e: "nodes_set (sankey_collect
      [\<lparr>taxonomy = Some ''Eukaryota''\<rparr>, \<lparr>taxonomy = Some ''Bacteria''\<rparr>, \<lparr>taxonomy = Some ''Bacteria''\<rparr>])
    = nodes_set (sankey_collect [\<lparr>taxonomy = Some ''Bacteria''\<rparr>, \<lparr>taxonomy = Some ''Eukaryota''\<rparr>])"
    by (simp add: sankey_collect_def sankey_seq_def sankey_edge_def seq_parts_def raw_lineage_def
        parse_lineage_def strip_def isspace_def Let_def insert_commute)
  from sankey_node_ids_are_sorted_ranks[of
      "[\<lparr>taxonomy = Some ''Bacteria''\<rparr>, \<lparr>taxonomy = Some ''Eukaryota''\<rparr>]"
      "[\<lparr>taxonomy = Some ''Eukaryota''\<rparr>, \<lparr>taxonomy = Some ''Bacteria''\<rparr>, \<lparr>taxonomy = Some ''Bacteria''\<rparr>]"] e
  show ?thesis by blast
qed

subsection \<open>The fixed window\<close>

lemma window_Cons: "take 5 (''Start'' # parts) = ''Start'' # take 4 parts"
  by (simp add: take_Cons')

lemma lineage_edges_zip: "lineage_edges parts = zip (''Start'' # take 4 parts) (take 4 parts)"
  by (simp add: lineage_edges_def Let_def window_Cons)

lemma length_lineage_edges: "length (lineage_edges parts) = min 4 (length parts)"
  by (simp add: lineage_edges_zip)

lemma lineage_edges_nth:
  "i < length (lineage_edges parts) \<Longrightarrow>
   lineage_edges parts ! i = ((''Start'' # parts) ! i, parts ! i)"
  by (cases i) (simp_all add: lineage_edges_zip)

lemma lineage_edges_targets: "snd ` set (lineage_edges parts) = set (take 4 parts)"
proof -
  have "map snd (zip (''Start'' # take 4 parts) (take 4 parts)) = take 4 parts"
    by (rule nth_equalityI) auto
  then have "set (map snd (lineage_edges parts)) = set (take 4 parts)"
    by (simp only: lineage_edges_zip)
  then show ?thesis by simp
qed

lemma lineage_edges_sources:
  "fst ` set (lineage_edges parts) \<subseteq> insert ''Start'' (set (take 4 parts))"
  unfolding lineage_edges_zip by (auto dest: set_zip_leftD)

lemma all_edges_endpoints:
  "insert ''Start'' (fst ` set (all_edges seqs) \<union> snd ` set (all_edges seqs)) =
   insert ''Start'' (\<Union>seq\<in>set seqs. set (take 4 (seq_parts seq)))"
proof -
  have t: "snd ` set (all_edges seqs) = (\<Union>seq\<in>set seqs. set (take 4 (seq_parts seq)))"
    by (simp add: all_edges_def image_UN lineage_edges_targets)
  have s: "fst ` set (all_edges seqs) \<subseteq> insert ''Start'' (\<Union>seq\<in>set seqs. set (take 4 (seq_parts seq)))"
    using lineage_edges_sources by (fastforce simp: all_edges_def)
  from t s show ?thesis by blast
qed

lemma count_list_filter: "count_list xs k = length (filter (\<lambda>x. x = k) xs)"
  by (induction xs) auto

lemma counter_get_Nil: "counter_get [] k = 0"
  by (simp add: counter_get_def)

lemma flows_counts: "counter_get (flows (sankey_collect seqs)) e = count_list (all_edges seqs) e"
  using foldl_counter_get[of "\<lambda>e. e" "[]" "all_edges seqs" e]
  by (simp add: flows_sankey_collect counter_get_Nil count_list_filter)

lemma flows_distinct: "distinct (map fst (flows (sankey_collect seqs)))"
  by (simp add: flows_sankey_collect foldl_counter_distinct)

text \<open>
  Claim C8. The builder is a fold of single edges over the edges of all lineages, where
  the edges of one lineage are the pairs of consecutive labels of \<^verbatim>\<open>"Start"\<close> followed
  by the first four levels: edge \<open>i\<close> goes from position \<open>i\<close> of \<^verbatim>\<open>["Start"] + parts\<close>
  to position \<open>i\<close> of \<^verbatim>\<open>parts\<close>, and there are \<open>min 4 (length parts)\<close> of them. The flow
  table has one entry per distinct pair, whose count is the number of times the pair was
  emitted; every link carries one entry. The node set is \<^verbatim>\<open>"Start"\<close> together with the
  labels of the first four levels of the lineages: a label that occurs only beyond the
  fourth level is no node and no endpoint.
\<close>

theorem sankey_edges_fixed_window:
  "sankey_collect seqs = foldl add_edge \<lparr>nodes_set = {''Start''}, flows = []\<rparr> (all_edges seqs)
   \<and> all_edges seqs = concat (map (\<lambda>seq. lineage_edges (seq_parts seq)) seqs)
   \<and> length (lineage_edges parts) = min 4 (length parts)
   \<and> (\<forall>i<length (lineage_edges parts).
        lineage_edges parts ! i = ((''Start'' # parts) ! i, parts ! i))
   \<and> distinct (map fst (flows (sankey_collect seqs)))
   \<and> fst ` set (flows (sankey_collect seqs)) = set (all_edges seqs)
   \<and> (\<forall>e. counter_get (flows (sankey_collect seqs)) e = count_list (all_edges seqs) e)
   \<and> nodes_set (sankey_collect seqs) =
       insert ''Start'' (\<Union>seq\<in>set seqs. set (take 4 (seq_parts seq)))
   \<and> map_sum id links (sankey_of seqs) =
       Inr (map (\<lambda>((s, t), v).
                   \<lparr>link_source = label_rank (nodes_set (sankey_collect seqs)) s,
                    link_target = label_rank (nodes_set (sankey_collect seqs)) t,
                    link_value = v\<rparr>)
              (flows (sankey_collect seqs)))"
proof -
  have n: "nodes_set (sankey_collect seqs) =
       insert ''Start'' (\<Union>seq\<in>set seqs. set (take 4 (seq_parts seq)))"
    by (simp only: nodes_set_sankey_collect all_edges_endpoints)
  have l: "map_sum id links (sankey_of seqs) =
       Inr (map (\<lambda>((s, t), v).
                   \<lparr>link_source = label_rank (nodes_set (sankey_collect seqs)) s,
                    link_target = label_rank (nodes_set (sankey_collect seqs)) t,
                    link_value = v\<rparr>)
              (flows (sankey_collect seqs)))"
    by (simp add: sankey_of_ranks)
  from sankey_collect_edges[of seqs] all_edges_def[of seqs] length_lineage_edges[of parts]
    lineage_edges_nth[of _ parts] flows_distinct[of seqs] flows_keys[of seqs] flows_counts[of seqs] n l
  show ?thesis by blast
qed

theorem sankey_edges_fixed_window_witness:
  "lineage_edges [''a'', ''b'', ''c'', ''d'', ''e'', ''f''] =
     [(''Start'', ''a''), (''a'', ''b''), (''b'', ''c''), (''c'', ''d'')]
   \<and> nodes_set (sankey_collect [\<lparr>taxonomy = Some ''a;b;c;d;e;f''\<rparr>, \<lparr>taxonomy = Some ''a;b''\<rparr>])
       = insert ''Start'' (set [''a'', ''b'', ''c'', ''d''] \<union> set [''a'', ''b''])
   \<and> ''e'' \<notin> nodes_set (sankey_collect [\<lparr>taxonomy = Some ''a;b;c;d;e;f''\<rparr>, \<lparr>taxonomy = Some ''a;b''\<rparr>])
   \<and> counter_get (flows (sankey_collect [\<lparr>taxonomy = Some ''a;b;c;d;e;f''\<rparr>, \<lparr>taxonomy = Some ''a;b''\<rparr>]))
       (''a'', ''b'') = 2"
proof -
  let ?seqs = "[\<lparr>taxonomy = Some ''a;b;c;d;e;f''\<rparr>, \<lparr>taxonomy = Some ''a;b''\<rparr>]"
  have p1: "seq_parts \<lparr>taxonomy = Some ''a;b;c;d;e;f''\<rparr> = [''a'', ''b'', ''c'', ''d'', ''e'', ''f'']"
    by (simp add: seq_parts_def raw_lineage_def parse_lineage_def strip_def isspace_def)
  have p2: "seq_parts \<lparr>taxonomy = Some ''a;b''\<rparr> = [''a'', ''b'']"
    by (simp add: seq_parts_def raw_lineage_def parse_lineage_def strip_def isspace_def)
  have e1: "lineage_edges [''a'', ''b'', ''c'', ''d'', ''e'', ''f''] =
     [(''Start'', ''a''), (''a'', ''b''), (''b'', ''c''), (''c'', ''d'')]"
    by (simp add: lineage_edges_zip)
  have e2: "lineage_edges [''a'', ''b''] = [(''Start'', ''a''), (''a'', ''b'')]"
    by (simp add: lineage_edges_zip)
  have ae: "all_edges ?seqs =
     [(''Start'', ''a''), (''a'', ''b''), (''b'', ''c''), (''c'', ''d''), (''Start'', ''a''), (''a'', ''b'')]"
    by (simp add: all_edges_def p1 p2 e1 e2)
  from sankey_edges_fixed_window[of ?seqs "[''a'', ''b'', ''c'', ''d'', ''e'', ''f'']"]
  have n: "nodes_set (sankey_collect ?seqs) =
       insert ''Start'' (\<Union>seq\<in>set ?seqs. set (take 4 (seq_parts seq)))"
    and c: "counter_get (flows (sankey_collect ?seqs)) (''a'', ''b'') = count_list (all_edges ?seqs) (''a'', ''b'')"
    by blast+
  from n have n': "nodes_set (sankey_collect ?seqs)
       = insert ''Start'' (set [''a'', ''b'', ''c'', ''d''] \<union> set [''a'', ''b''])"
    by (simp add: p1 p2)
  then have ne: "''e'' \<notin> nodes_set (sankey_collect ?seqs)" by simp
  from c have c': "counter_get (flows (sankey_collect ?seqs)) (''a'', ''b'') = 2"
    by (simp add: ae)
  from e1 n' ne c' show ?thesis by blast
qed


end
